theory Spec2Isabelle
  imports Main "HOL-Library.Word"
begin

section \<open>Values\<close>

text \<open>
  The wrapper is TypeScript over the \<open>monk\<close> driver. Three files hold three revisions of
  the same module: \<open>src/src/minimonk.ts\<close>, \<open>src/unnamed/part_000\<close> (both with the
  lenient identifier coercion) and \<open>src/unnamed/part_001\<close> (with the strict one). The
  methods of \<open>Collection\<close> have the same bodies in all three, up to the spelling
  \<open>async/await\<close> versus \<open>.then\<close>; they are embedded once.

  An identifier is the opaque 12-byte value of the \<open>bson\<close> package.
\<close>

datatype oid = ObjectId (id_bytes: "8 word list")

text \<open>
  JavaScript values as far as the wrapper handles them. A \<open>number\<close> is an IEEE-754
  double. The numbers of the wrapper are page sizes, page numbers, sort directions and
  counts: \<open>JNum n\<close> is the double whose value is the integer \<open>n\<close> (the two zeros are
  one value), and the infinities are what a product can overflow to. Fractions and
  \<open>NaN\<close> are outside the model; no operation of the wrapper produces them from integers.
  An object is the list of its properties in insertion order.
\<close>

datatype jv =
    JUndefined
  | JNull
  | JBool bool
  | JNum int
  | JInfinity
  | JNegInfinity
  | JStr string
  | JOid oid
  | JArr "jv list"
  | JObj "(string \<times> jv) list"

text \<open>The TypeScript union \<open>T | null | undefined\<close> of an optional argument.\<close>

datatype 'a nullable = Undefined | Null | Val 'a

text \<open>
  What the wrapper can reject a promise with or throw: an \<open>Error\<close> with its message
  (\<open>idify\<close> of the strict revision and the identifier constructor raise one), or whatever
  the driver rejected with, passed on untouched.
\<close>

datatype error = Error string | StoreError string

text \<open>JavaScript truthiness, the test behind \<open>&&\<close>, \<open>||\<close>, \<open>!!\<close> and \<open>?:\<close>.\<close>

fun truthy :: "jv \<Rightarrow> bool" where
  "truthy JUndefined = False"
| "truthy JNull = False"
| "truthy (JBool b) = b"
| "truthy (JNum n) = (n \<noteq> 0)"
| "truthy JInfinity = True"
| "truthy JNegInfinity = True"
| "truthy (JStr s) = (s \<noteq> [])"
| "truthy (JOid i) = True"
| "truthy (JArr xs) = True"
| "truthy (JObj kvs) = True"

section \<open>Arithmetic on numbers\<close>

text \<open>
  The wrapper computes with numbers in one place, \<open>(page - 1) * limit\<close>, and JavaScript
  rounds the exact result of each operation to the nearest double, ties to the even
  significand. \<open>bit_length a\<close> is the number of binary digits of \<open>a\<close>. An integer of at
  most 53 digits is a double; a longer one is rounded to 53 significant digits, which
  \<open>round_double\<close> does (without a bound on the exponent).
\<close>

fun bit_length :: "nat \<Rightarrow> nat" where
  "bit_length n = (if n = 0 then 0 else Suc (bit_length (n div 2)))"

declare bit_length.simps [simp del]

definition round_double :: "int \<Rightarrow> int" where
  "round_double x =
     (let a = nat \<bar>x\<bar>; e = bit_length a in
      if e \<le> 53 then x
      else
        let ulp = 2 ^ (e - 53); q = a div ulp; r = a mod ulp;
            m = (if 2 * r < ulp then q
                 else if ulp < 2 * r then q + 1
                 else if even q then q else q + 1)
        in sgn x * int (m * ulp))"

text \<open>
  \<open>a * b\<close> on two integer doubles: the exact product, rounded, and an infinity when the
  rounded magnitude reaches \<open>2 ^ 1024\<close>.
\<close>

definition js_times :: "int \<Rightarrow> int \<Rightarrow> jv" where
  "js_times a b =
     (let r = round_double (a * b) in
      if 2 ^ 1024 \<le> r then JInfinity
      else if r \<le> - (2 ^ 1024) then JNegInfinity
      else JNum r)"

section \<open>Identifiers\<close>

text \<open>
  Modelled from the spec: \<open>ObjectId.isValid\<close>, \<open>ObjectId.createFromHexString\<close> and
  \<open>toHexString\<close> belong to the \<open>bson\<close> package, which is not among the sources. The
  spec calls an identifier string valid when it is a 24-character hexadecimal string, says an
  identifier is constructed only from such a string, and gives the canonical representation
  of the 12-byte value as 24 lowercase hexadecimal characters.
\<close>

definition is_hex_digit :: "char \<Rightarrow> bool" where
  "is_hex_digit c = (c \<in> set ''0123456789abcdefABCDEF'')"

definition isValid :: "string \<Rightarrow> bool" where
  "isValid s = (length s = 24 \<and> list_all is_hex_digit s)"

definition hex_value :: "char \<Rightarrow> nat" where
  "hex_value c =
     (if c \<in> set ''0123456789'' then of_char c - 48
      else if c \<in> set ''abcdef'' then of_char c - 87
      else of_char c - 55)"

fun hex_bytes :: "string \<Rightarrow> 8 word list" where
  "hex_bytes (a # b # rest) = word_of_nat (16 * hex_value a + hex_value b) # hex_bytes rest"
| "hex_bytes rest = []"

definition createFromHexString :: "string \<Rightarrow> error + oid" where
  "createFromHexString s =
     (if isValid s then Inr (ObjectId (hex_bytes s))
      else Inl (Error ''Argument passed in must be a string of 24 hex characters''))"

definition hex_digit :: "nat \<Rightarrow> char" where
  "hex_digit n = ''0123456789abcdef'' ! n"

definition byte_hex :: "8 word \<Rightarrow> string" where
  "byte_hex b = [hex_digit (unat b div 16), hex_digit (unat b mod 16)]"

definition toHexString :: "oid \<Rightarrow> string" where
  "toHexString i = concat (map byte_hex (id_bytes i))"

text \<open>The lower-case spelling of a hexadecimal string.\<close>

definition lower_hex :: "char \<Rightarrow> char" where
  "lower_hex c = (case map_of (zip ''ABCDEF'' ''abcdef'') c of Some d \<Rightarrow> d | None \<Rightarrow> c)"

text \<open>
  \<open>idify\<close> of \<open>src/src/minimonk.ts\<close>, and \<open>id\<close> of \<open>src/unnamed/part_000\<close> with the
  same body (its argument is \<open>string | null\<close>):
  \<^verbatim>\<open>return str && ObjectID.isValid(str) ? ObjectID.createFromHexString(str) : null;\<close>
  The empty string is falsy, as are \<open>null\<close> and \<open>undefined\<close>.
\<close>

fun idify :: "string nullable \<Rightarrow> error + oid nullable" where
  "idify (Val str) =
     (if str \<noteq> [] \<and> isValid str
      then (case createFromHexString str of Inl e \<Rightarrow> Inl e | Inr i \<Rightarrow> Inr (Val i))
      else Inr Null)"
| "idify Null = Inr Null"
| "idify Undefined = Inr Null"

text \<open>
  \<open>idify\<close> of \<open>src/unnamed/part_001\<close>. The argument is declared
  \<open>string | null | undefined\<close> and then tested as \<open>unknown\<close>, so it is any value here:
  an identifier instance passes through, anything else that is not a string gives \<open>null\<close>,
  an invalid string throws, a valid one is parsed.
\<close>

fun idify_strict :: "jv \<Rightarrow> error + oid nullable" where
  "idify_strict (JOid i) = Inr (Val i)"
| "idify_strict (JStr str) =
     (if \<not> isValid str
      then Inl (Error (''Invalid hex value <'' @ str @ ''> passed to idify''))
      else (case createFromHexString str of Inl e \<Rightarrow> Inl e | Inr i \<Rightarrow> Inr (Val i)))"
| "idify_strict v = Inr Null"

section \<open>The driver\<close>

text \<open>
  A \<open>Collection\<close> holds one \<open>ICollection\<close> of \<open>monk\<close> and calls it; the driver is
  not part of the repository, so it is a parameter: a record of the methods the wrapper calls.
  Each method reads and may change the state \<open>'s\<close> of the store, and either rejects
  (\<open>Inl\<close>) or resolves (\<open>Inr\<close>). An omitted optional argument is \<open>JUndefined\<close>.
\<close>

record 's icollection =
  c_count :: "jv \<Rightarrow> jv \<Rightarrow> 's \<Rightarrow> (error + int) \<times> 's"
  c_find :: "jv \<Rightarrow> jv \<Rightarrow> 's \<Rightarrow> (error + jv list) \<times> 's"
  c_findOne :: "jv \<Rightarrow> jv \<Rightarrow> 's \<Rightarrow> (error + jv) \<times> 's"
  c_findOneAndUpdate :: "jv \<Rightarrow> jv \<Rightarrow> jv \<Rightarrow> 's \<Rightarrow> (error + jv) \<times> 's"
  c_findOneAndDelete :: "jv \<Rightarrow> jv \<Rightarrow> 's \<Rightarrow> (error + jv) \<times> 's"

text \<open>
  What the wrapper sends to the driver is observable: every call is appended, with its
  arguments, to the list \<open>issued\<close> that travels with the state of the store.
\<close>

datatype call =
    Count jv jv
  | Find jv jv
  | FindOne jv jv
  | FindOneAndUpdate jv jv jv
  | FindOneAndDelete jv jv

record 's world =
  store :: 's
  issued :: "call list"

type_synonym ('s, 'a) promise = "'s world \<Rightarrow> (error + 'a) \<times> 's world"

text \<open>\<open>await p\<close> or \<open>p.then(f)\<close>: a rejection skips the continuation.\<close>

definition bind_p :: "('s, 'a) promise \<Rightarrow> ('a \<Rightarrow> ('s, 'b) promise) \<Rightarrow> ('s, 'b) promise" where
  "bind_p p f w = (case p w of (Inl e, w') \<Rightarrow> (Inl e, w') | (Inr a, w') \<Rightarrow> f a w')"

definition resolve :: "'a \<Rightarrow> ('s, 'a) promise" where
  "resolve a w = (Inr a, w)"

definition call_count :: "'s icollection \<Rightarrow> jv \<Rightarrow> jv \<Rightarrow> ('s, int) promise" where
  "call_count col f opts w =
     (case c_count col f opts (store w) of
        (r, s') \<Rightarrow> (r, \<lparr>store = s', issued = issued w @ [Count f opts]\<rparr>))"

definition call_find :: "'s icollection \<Rightarrow> jv \<Rightarrow> jv \<Rightarrow> ('s, jv list) promise" where
  "call_find col f opts w =
     (case c_find col f opts (store w) of
        (r, s') \<Rightarrow> (r, \<lparr>store = s', issued = issued w @ [Find f opts]\<rparr>))"

definition call_findOne :: "'s icollection \<Rightarrow> jv \<Rightarrow> jv \<Rightarrow> ('s, jv) promise" where
  "call_findOne col f opts w =
     (case c_findOne col f opts (store w) of
        (r, s') \<Rightarrow> (r, \<lparr>store = s', issued = issued w @ [FindOne f opts]\<rparr>))"

definition call_findOneAndUpdate ::
  "'s icollection \<Rightarrow> jv \<Rightarrow> jv \<Rightarrow> jv \<Rightarrow> ('s, jv) promise" where
  "call_findOneAndUpdate col f u opts w =
     (case c_findOneAndUpdate col f u opts (store w) of
        (r, s') \<Rightarrow> (r, \<lparr>store = s', issued = issued w @ [FindOneAndUpdate f u opts]\<rparr>))"

definition call_findOneAndDelete :: "'s icollection \<Rightarrow> jv \<Rightarrow> jv \<Rightarrow> ('s, jv) promise" where
  "call_findOneAndDelete col f opts w =
     (case c_findOneAndDelete col f opts (store w) of
        (r, s') \<Rightarrow> (r, \<lparr>store = s', issued = issued w @ [FindOneAndDelete f opts]\<rparr>))"

text \<open>
  The calls a promise issues when it runs from \<open>w\<close>, and the world of a store that has
  not been called yet.
\<close>

definition calls_of :: "('s, 'a) promise \<Rightarrow> 's world \<Rightarrow> call list" where
  "calls_of p w = drop (length (issued w)) (issued (snd (p w)))"

definition fresh :: "'s \<Rightarrow> 's world" where
  "fresh s = \<lparr>store = s, issued = []\<rparr>"

section \<open>The methods of Collection\<close>

text \<open>\<open>doc => doc || null\<close>, the continuation of every single-document lookup.\<close>

definition or_null :: "jv \<Rightarrow> jv" where
  "or_null doc = (if truthy doc then doc else JNull)"

text \<open>An optional string or number argument as a value.\<close>

fun jstr :: "string nullable \<Rightarrow> jv" where
  "jstr Undefined = JUndefined"
| "jstr Null = JNull"
| "jstr (Val s) = JStr s"

fun jnum :: "int nullable \<Rightarrow> jv" where
  "jnum Undefined = JUndefined"
| "jnum Null = JNull"
| "jnum (Val n) = JNum n"

text \<open>The key a computed property name \<open>[sort]\<close> stands for.\<close>

fun property_key :: "string nullable \<Rightarrow> string" where
  "property_key Undefined = ''undefined''"
| "property_key Null = ''null''"
| "property_key (Val s) = s"

text \<open>Reading a property of an object; \<open>undefined\<close> where there is none.\<close>

fun get_prop :: "string \<Rightarrow> jv \<Rightarrow> jv" where
  "get_prop k (JObj kvs) = (case map_of kvs k of Some v \<Rightarrow> v | None \<Rightarrow> JUndefined)"
| "get_prop k v = JUndefined"


text \<open>
  \<^verbatim>\<open>existsById(id) { return this.collection.count({ _id: id }, { limit: 1 }).then(count => !!count); }\<close>
\<close>

definition existsById :: "'s icollection \<Rightarrow> jv \<Rightarrow> ('s, bool) promise" where
  "existsById col i =
     bind_p (call_count col (JObj [(''_id'', i)]) (JObj [(''limit'', JNum 1)]))
       (\<lambda>count. resolve (count \<noteq> 0))"

definition findOne :: "'s icollection \<Rightarrow> jv \<Rightarrow> jv \<Rightarrow> ('s, jv) promise" where
  "findOne col filter' options =
     bind_p (call_findOne col filter' options) (\<lambda>doc. resolve (or_null doc))"

definition findById :: "'s icollection \<Rightarrow> jv \<Rightarrow> jv \<Rightarrow> ('s, jv) promise" where
  "findById col i options =
     bind_p (call_findOne col (JObj [(''_id'', i)]) options) (\<lambda>doc. resolve (or_null doc))"

definition findLastOne :: "'s icollection \<Rightarrow> jv \<Rightarrow> ('s, jv) promise" where
  "findLastOne col filter' =
     bind_p (call_findOne col filter'
               (JObj [(''sort'', JObj [(''_id'', JNum (- 1))]), (''limit'', JNum 1)]))
       (\<lambda>doc. resolve (or_null doc))"

text \<open>
  \<open>findSmartPage\<close>. The filter is
  \<^verbatim>\<open>{ $and: [filter, ...(search ? [{ $text: { $search: search } }] : [])] }\<close>
  and the options of \<open>find\<close> are
  \<^verbatim>\<open>{ ...(sort && sortOrder && { sort: { [sort]: sortOrder } }), skip: (page - 1) * limit, limit }\<close>
  where the spread of a falsy operand (\<open>""\<close>, \<open>0\<close>, \<open>null\<close>, \<open>undefined\<close>) adds no
  property. \<open>page - 1\<close> is rounded as every difference is (to a finite double, \<open>page\<close>
  being one), and so is the product. \<open>count\<close> is awaited before \<open>find\<close> is called.
\<close>

definition rootFilter :: "jv \<Rightarrow> string nullable \<Rightarrow> jv" where
  "rootFilter filter' search =
     JObj [(''$and'',
            JArr (filter' #
                  (if truthy (jstr search)
                   then [JObj [(''$text'', JObj [(''$search'', jstr search)])]]
                   else [])))]"

definition findOptions :: "string nullable \<Rightarrow> int nullable \<Rightarrow> int \<Rightarrow> int \<Rightarrow> jv" where
  "findOptions sort' sortOrder limit page =
     JObj ((if truthy (jstr sort') \<and> truthy (jnum sortOrder)
            then [(''sort'', JObj [(property_key sort', jnum sortOrder)])]
            else [])
           @ [(''skip'', js_times (round_double (page - 1)) limit), (''limit'', JNum limit)])"

record pageResult =
  total :: int
  items :: "jv list"

definition findSmartPage ::
  "'s icollection \<Rightarrow> jv \<Rightarrow> string nullable \<Rightarrow> string nullable \<Rightarrow> int nullable \<Rightarrow> int \<Rightarrow> int
     \<Rightarrow> ('s, pageResult) promise" where
  "findSmartPage col filter' search sort' sortOrder limit page =
     bind_p (call_count col (rootFilter filter' search) JUndefined) (\<lambda>n.
     bind_p (call_find col (rootFilter filter' search) (findOptions sort' sortOrder limit page))
       (\<lambda>docs. resolve \<lparr>total = n, items = docs\<rparr>))"

definition findOneAndUpdate :: "'s icollection \<Rightarrow> jv \<Rightarrow> jv \<Rightarrow> jv \<Rightarrow> ('s, jv) promise" where
  "findOneAndUpdate col filter' update options =
     bind_p (call_findOneAndUpdate col filter' update options) (\<lambda>doc. resolve (or_null doc))"

definition findByIdAndSet :: "'s icollection \<Rightarrow> jv \<Rightarrow> jv \<Rightarrow> jv \<Rightarrow> ('s, jv) promise" where
  "findByIdAndSet col i set_arg options =
     bind_p (call_findOneAndUpdate col (JObj [(''_id'', i)]) (JObj [(''$set'', set_arg)]) options)
       (\<lambda>doc. resolve (or_null doc))"

definition findOneAndDelete :: "'s icollection \<Rightarrow> jv \<Rightarrow> jv \<Rightarrow> ('s, jv) promise" where
  "findOneAndDelete col filter' options =
     bind_p (call_findOneAndDelete col filter' options) (\<lambda>doc. resolve (or_null doc))"

definition findByIdAndDelete :: "'s icollection \<Rightarrow> jv \<Rightarrow> jv \<Rightarrow> ('s, jv) promise" where
  "findByIdAndDelete col i options =
     bind_p (call_findOneAndDelete col (JObj [(''_id'', i)]) options)
       (\<lambda>doc. resolve (or_null doc))"

section \<open>What is asked of a store\<close>

text \<open>
  The wrapper bounds nothing and orders nothing itself: it hands \<open>limit\<close> and \<open>sort\<close>
  to the driver. Three contracts say what a store that honours these options answers.

  \<open>honours_positive_limit\<close>: a \<open>find\<close> with a \<open>limit\<close> of \<open>n > 0\<close> resolves
  with at most \<open>n\<close> documents. \<open>honours_zero_limit\<close>: a \<open>find\<close> with a \<open>limit\<close> of
  0 resolves with no document.
\<close>

definition honours_positive_limit :: "'s icollection \<Rightarrow> bool" where
  "honours_positive_limit col =
     (\<forall>f opts s docs s' n.
        c_find col f opts s = (Inr docs, s') \<and> get_prop ''limit'' opts = JNum n \<and> 0 < n
        \<longrightarrow> int (length docs) \<le> n)"

definition honours_zero_limit :: "'s icollection \<Rightarrow> bool" where
  "honours_zero_limit col =
     (\<forall>f opts s docs s'.
        c_find col f opts s = (Inr docs, s') \<and> get_prop ''limit'' opts = JNum 0
        \<longrightarrow> docs = [])"

text \<open>
  \<open>answers_last\<close>: a \<open>findOne\<close> with the options \<open>{sort: {_id: -1}, limit: 1}\<close>
  resolves with a document of greatest \<open>_id\<close> among those the filter matches, and with
  something falsy when it matches none. \<open>matching s f\<close> are the documents of the store
  state \<open>s\<close> that the filter \<open>f\<close> matches, and \<open>rank\<close> orders the identifiers.
\<close>

definition answers_last ::
  "'s icollection \<Rightarrow> ('s \<Rightarrow> jv \<Rightarrow> jv list) \<Rightarrow> (jv \<Rightarrow> nat) \<Rightarrow> bool" where
  "answers_last col matching rank =
     (\<forall>f s r s'.
        c_findOne col f (JObj [(''sort'', JObj [(''_id'', JNum (- 1))]), (''limit'', JNum 1)]) s
          = (Inr r, s')
        \<longrightarrow> (if matching s f = [] then \<not> truthy r
             else truthy r \<and> r \<in> set (matching s f) \<and>
                  (\<forall>d \<in> set (matching s f).
                     rank (get_prop ''_id'' d) \<le> rank (get_prop ''_id'' r))))"

section \<open>Collections to run the wrapper on\<close>

text \<open>
  Two stand-ins for the driver, for the concrete runs below; neither is part of the
  repository. The first is a collection without documents: nothing is found, whatever is
  asked.
\<close>

definition empty_collection :: "unit icollection" where
  "empty_collection =
     \<lparr> c_count = (\<lambda>f opts s. (Inr 0, s)),
       c_find = (\<lambda>f opts s. (Inr [], s)),
       c_findOne = (\<lambda>f opts s. (Inr JUndefined, s)),
       c_findOneAndUpdate = (\<lambda>f u opts s. (Inr JNull, s)),
       c_findOneAndDelete = (\<lambda>f opts s. (Inr JNull, s)) \<rparr>"

text \<open>
  The second keeps its documents in a list. \<open>matches f d\<close> says whether the filter \<open>f\<close>
  matches the document \<open>d\<close>; identifiers are ordered as big-endian numbers; the option
  \<open>sort: {_id: -1}\<close> is the one ordering it knows; \<open>skip\<close> and \<open>limit\<close> cut the
  result. With \<open>zero_is_all\<close> a \<open>limit\<close> of 0 stands for no limit at all, the reading
  of MongoDB's cursors. It reads only.
\<close>

definition oid_rank :: "jv \<Rightarrow> nat" where
  "oid_rank v =
     (case v of JOid i \<Rightarrow> foldl (\<lambda>a b. 256 * a + unat b) 0 (id_bytes i) | _ \<Rightarrow> 0)"

fun is_document :: "jv \<Rightarrow> bool" where
  "is_document (JObj kvs) = True"
| "is_document v = False"

definition mem_matching :: "(jv \<Rightarrow> jv \<Rightarrow> bool) \<Rightarrow> jv list \<Rightarrow> jv \<Rightarrow> jv list" where
  "mem_matching matches docs f = filter (\<lambda>d. is_document d \<and> matches f d) docs"

definition in_order :: "jv \<Rightarrow> jv list \<Rightarrow> jv list" where
  "in_order opts docs =
     (if get_prop ''sort'' opts = JObj [(''_id'', JNum (- 1))]
      then rev (sort_key (\<lambda>d. oid_rank (get_prop ''_id'' d)) docs)
      else docs)"

definition skipped :: "jv \<Rightarrow> jv list \<Rightarrow> jv list" where
  "skipped opts docs = (case get_prop ''skip'' opts of JNum n \<Rightarrow> drop (nat n) docs | _ \<Rightarrow> docs)"

definition limited :: "bool \<Rightarrow> jv \<Rightarrow> jv list \<Rightarrow> jv list" where
  "limited zero_is_all opts docs =
     (case get_prop ''limit'' opts of
        JNum n \<Rightarrow> if n = 0 \<and> zero_is_all then docs else take (nat n) docs
      | _ \<Rightarrow> docs)"

definition mem_collection :: "(jv \<Rightarrow> jv \<Rightarrow> bool) \<Rightarrow> bool \<Rightarrow> jv list icollection" where
  "mem_collection matches zero_is_all =
     \<lparr> c_count = (\<lambda>f opts docs. (Inr (int (length (mem_matching matches docs f))), docs)),
       c_find = (\<lambda>f opts docs.
         (Inr (limited zero_is_all opts (skipped opts (in_order opts (mem_matching matches docs f)))),
          docs)),
       c_findOne = (\<lambda>f opts docs.
         (Inr (case in_order opts (mem_matching matches docs f) of [] \<Rightarrow> JNull | d # ds \<Rightarrow> d),
          docs)),
       c_findOneAndUpdate = (\<lambda>f u opts docs. (Inl (StoreError ''read-only''), docs)),
       c_findOneAndDelete = (\<lambda>f opts docs. (Inl (StoreError ''read-only''), docs)) \<rparr>"

text \<open>Three documents, and the filter semantics under which every filter matches.\<close>

definition doc_n :: "nat \<Rightarrow> jv" where
  "doc_n n = JObj [(''_id'', JOid (ObjectId [0, 0, 0, 0, 0, 0, 0, 0, 0, 0, 0, word_of_nat n]))]"

definition match_all :: "jv \<Rightarrow> jv \<Rightarrow> bool" where
  "match_all f d = True"

section \<open>Identifier coercion\<close>

text \<open>
  C4. The lenient \<open>idify\<close> (and \<open>id\<close> of the oldest revision) returns \<open>null\<close> for
  \<open>null\<close>, for \<open>undefined\<close> and for every string that is not a valid 24-character
  hexadecimal identifier string, and it throws for no argument.
\<close>

theorem idify_lenient:
  "idify Null = Inr Null \<and> idify Undefined = Inr Null \<and>
   (\<forall>s. \<not> isValid s \<longrightarrow> idify (Val s) = Inr Null) \<and>
   (\<forall>x. \<exists>r. idify x = Inr r)"
proof -
  have "\<exists>r. idify x = Inr r" for x
    by (cases x) (simp_all add: createFromHexString_def)
  then show ?thesis by simp
qed

theorem idify_lenient_witness:
  "\<not> isValid ''xyz'' \<and> idify (Val ''xyz'') = Inr Null"
proof -
  have h: "\<not> isValid ''xyz''" by (simp add: isValid_def)
  with idify_lenient show ?thesis by blast
qed

text \<open>
  C3. The strict \<open>idify\<close> returns \<open>null\<close> for \<open>null\<close> and \<open>undefined\<close>, returns an
  identifier instance unchanged, throws for a string that is not a valid identifier string an
  error whose message quotes that string, and parses a valid string into its identifier.
\<close>

theorem idify_strict_cases:
  "idify_strict JNull = Inr Null \<and> idify_strict JUndefined = Inr Null \<and>
   (\<forall>i. idify_strict (JOid i) = Inr (Val i)) \<and>
   (\<forall>s. \<not> isValid s \<longrightarrow>
      idify_strict (JStr s) = Inl (Error (''Invalid hex value <'' @ s @ ''> passed to idify''))) \<and>
   (\<forall>s. isValid s \<longrightarrow>
      createFromHexString s = Inr (ObjectId (hex_bytes s)) \<and>
      idify_strict (JStr s) = Inr (Val (ObjectId (hex_bytes s))))"
  by (simp add: createFromHexString_def)

theorem idify_strict_cases_witness:
  "\<not> isValid ''xyz'' \<and>
   idify_strict (JStr ''xyz'') = Inl (Error ''Invalid hex value <xyz> passed to idify'') \<and>
   isValid ''5f2b9c0d1e3a4b5c6d7e8f90'' \<and>
   idify_strict (JStr ''5f2b9c0d1e3a4b5c6d7e8f90'') =
     Inr (Val (ObjectId [95, 43, 156, 13, 30, 58, 75, 92, 109, 126, 143, 144]))"
proof -
  have a: "\<not> isValid ''xyz''" by (simp add: isValid_def)
  have b: "isValid ''5f2b9c0d1e3a4b5c6d7e8f90''" by (simp add: isValid_def is_hex_digit_def)
  have c: "hex_bytes ''5f2b9c0d1e3a4b5c6d7e8f90'' = [95, 43, 156, 13, 30, 58, 75, 92, 109, 126, 143, 144]"
    by (simp add: hex_value_def)
  from idify_strict_cases a b c show ?thesis by auto
qed

subsection \<open>The string of an identifier\<close>

lemma hex_value_less: "is_hex_digit c \<Longrightarrow> hex_value c < 16"
proof -
  assume "is_hex_digit c"
  then have "c \<in> set ''0123456789abcdefABCDEF''" by (simp only: is_hex_digit_def)
  then show ?thesis
    by (simp only: set_simps) (elim insertE emptyE; simp add: hex_value_def)
qed

lemma hex_digit_value: "is_hex_digit c \<Longrightarrow> hex_digit (hex_value c) = lower_hex c"
proof -
  assume "is_hex_digit c"
  then have "c \<in> set ''0123456789abcdefABCDEF''" by (simp only: is_hex_digit_def)
  then show ?thesis
    by (simp only: set_simps)
       (elim insertE emptyE; simp add: hex_digit_def hex_value_def lower_hex_def)
qed

lemma unat_byte: "n < 256 \<Longrightarrow> unat (word_of_nat n :: 8 word) = n"
  by (simp add: unat_of_nat)

lemma byte_hex_word:
  assumes "a < 16" "b < 16"
  shows "byte_hex (word_of_nat (16 * a + b)) = [hex_digit a, hex_digit b]"
proof -
  have "16 * a + b < 256" using assms by simp
  then have "unat (word_of_nat (16 * a + b) :: 8 word) = 16 * a + b"
    by (rule unat_byte)
  then show ?thesis using assms by (simp add: byte_hex_def del: of_nat_add of_nat_mult)
qed

lemma hex_bytes_roundtrip:
  "list_all is_hex_digit s \<Longrightarrow> even (length s) \<Longrightarrow>
   concat (map byte_hex (hex_bytes s)) = map lower_hex s"
proof (induction s rule: hex_bytes.induct)
  case (1 a b rest)
  then show ?case
    by (simp add: byte_hex_word hex_value_less hex_digit_value del: of_nat_add of_nat_mult)
qed simp_all

lemma lower_hex_fixed: "c \<notin> set ''ABCDEF'' \<Longrightarrow> lower_hex c = c"
  by (simp add: lower_hex_def)

lemma map_lower_hex_fixed: "set s \<inter> set ''ABCDEF'' = {} \<Longrightarrow> map lower_hex s = s"
proof -
  assume "set s \<inter> set ''ABCDEF'' = {}"
  then have "\<forall>c \<in> set s. c \<notin> set ''ABCDEF''" by blast
  then have "\<forall>c \<in> set s. lower_hex c = c" using lower_hex_fixed by blast
  then show ?thesis by (simp add: map_idI)
qed

text \<open>
  C8, as the code has it. For a valid identifier string \<open>s\<close> the strict \<open>idify\<close> returns
  an identifier whose string is \<open>s\<close> in lower case: it is \<open>s\<close> itself when \<open>s\<close> has
  no upper-case digit.
\<close>

theorem idify_strict_roundtrip:
  assumes "isValid s"
  shows "\<exists>i. idify_strict (JStr s) = Inr (Val i) \<and> toHexString i = map lower_hex s \<and>
             (set s \<inter> set ''ABCDEF'' = {} \<longrightarrow> toHexString i = s)"
proof -
  from assms have d: "list_all is_hex_digit s" and e: "even (length s)"
    by (simp_all add: isValid_def)
  have r: "toHexString (ObjectId (hex_bytes s)) = map lower_hex s"
    using hex_bytes_roundtrip [OF d e] by (simp add: toHexString_def)
  have "idify_strict (JStr s) = Inr (Val (ObjectId (hex_bytes s)))"
    using assms by (simp add: createFromHexString_def)
  with r show ?thesis
    using map_lower_hex_fixed [of s] by auto
qed

theorem idify_strict_roundtrip_witness:
  "isValid ''5f2b9c0d1e3a4b5c6d7e8f90'' \<and>
   (\<exists>i. idify_strict (JStr ''5f2b9c0d1e3a4b5c6d7e8f90'') = Inr (Val i) \<and>
        toHexString i = ''5f2b9c0d1e3a4b5c6d7e8f90'')"
proof -
  have v: "isValid ''5f2b9c0d1e3a4b5c6d7e8f90''"
    by (simp add: isValid_def is_hex_digit_def)
  have l: "set ''5f2b9c0d1e3a4b5c6d7e8f90'' \<inter> set ''ABCDEF'' = {}"
    by simp
  from idify_strict_roundtrip [OF v] l v show ?thesis by blast
qed

text \<open>
  A valid string with upper-case digits does not come back: the identifier of
  \<open>ABCDEFABCDEFABCDEFABCDEF\<close> prints as \<open>abcdefabcdefabcdefabcdef\<close>.
\<close>

theorem idify_strict_uppercase:
  "isValid ''ABCDEFABCDEFABCDEFABCDEF'' \<and>
   idify_strict (JStr ''ABCDEFABCDEFABCDEFABCDEF'') =
     Inr (Val (ObjectId [171, 205, 239, 171, 205, 239, 171, 205, 239, 171, 205, 239])) \<and>
   toHexString (ObjectId [171, 205, 239, 171, 205, 239, 171, 205, 239, 171, 205, 239]) =
     ''abcdefabcdefabcdefabcdef'' \<and>
   ''abcdefabcdefabcdefabcdef'' \<noteq> ''ABCDEFABCDEFABCDEFABCDEF''"
proof -
  have v: "isValid ''ABCDEFABCDEFABCDEFABCDEF''"
    by (simp add: isValid_def is_hex_digit_def)
  have b: "hex_bytes ''ABCDEFABCDEFABCDEFABCDEF'' =
      [171, 205, 239, 171, 205, 239, 171, 205, 239, 171, 205, 239]"
    by (simp add: hex_value_def)
  have h: "byte_hex 171 = ''ab''" "byte_hex 205 = ''cd''" "byte_hex 239 = ''ef''"
    by (simp_all add: byte_hex_def hex_digit_def)
  have t: "toHexString (ObjectId [171, 205, 239, 171, 205, 239, 171, 205, 239, 171, 205, 239]) =
      ''abcdefabcdefabcdefabcdef''"
    by (simp add: toHexString_def h)
  from v b t show ?thesis by (simp add: createFromHexString_def)
qed

section \<open>Paging\<close>

subsection \<open>Exact products\<close>

lemma bit_length_le: "n < 2 ^ k \<Longrightarrow> bit_length n \<le> k"
proof (induction n arbitrary: k rule: bit_length.induct)
  case (1 n)
  show ?case
  proof (cases "n = 0")
    case True
    then show ?thesis by (simp add: bit_length.simps)
  next
    case False
    with "1.prems" obtain j where k: "k = Suc j" by (cases k) auto
    with "1.prems" have "n div 2 < 2 ^ j" by auto
    with "1.IH" [OF False] have "bit_length (n div 2) \<le> j" by blast
    with False k show ?thesis by (subst bit_length.simps) simp
  qed
qed

lemma bit_length_gt: "2 ^ k \<le> n \<Longrightarrow> k < bit_length n"
proof (induction n arbitrary: k rule: bit_length.induct)
  case (1 n)
  have "(0::nat) < 2 ^ k" by simp
  with "1.prems" have nz: "n \<noteq> 0" by linarith
  show ?case
  proof (cases k)
    case 0
    with nz show ?thesis by (subst bit_length.simps) simp
  next
    case (Suc j)
    with "1.prems" have "2 ^ j \<le> n div 2" by auto
    with "1.IH" [OF nz] have "j < bit_length (n div 2)" by blast
    with nz Suc show ?thesis by (subst bit_length.simps) simp
  qed
qed

lemma bit_length_eq: "2 ^ k \<le> n \<Longrightarrow> n < 2 ^ Suc k \<Longrightarrow> bit_length n = Suc k"
  using bit_length_gt [of k n] bit_length_le [of n "Suc k"] by linarith

lemma round_double_53: "round_double (2 ^ 53) = 2 ^ 53" "round_double (- (2 ^ 53)) = - (2 ^ 53)"
proof -
  have "bit_length (2 ^ 53) = Suc 53" by (rule bit_length_eq) simp_all
  then have b: "bit_length 9007199254740992 = 54" by simp
  show "round_double (2 ^ 53) = 2 ^ 53" "round_double (- (2 ^ 53)) = - (2 ^ 53)"
    using b by (simp_all add: round_double_def Let_def)
qed

lemma round_double_exact: "\<bar>x\<bar> \<le> 2 ^ 53 \<Longrightarrow> round_double x = x"
proof -
  assume a: "\<bar>x\<bar> \<le> 2 ^ 53"
  show ?thesis
  proof (cases "\<bar>x\<bar> = 2 ^ 53")
    case True
    then have "x = 2 ^ 53 \<or> x = - (2 ^ 53)" by auto
    then show ?thesis using round_double_53 by auto
  next
    case False
    with a have "\<bar>x\<bar> < 2 ^ 53" by simp
    then have "nat \<bar>x\<bar> < 2 ^ 53" by (simp add: nat_less_iff)
    then have "bit_length (nat \<bar>x\<bar>) \<le> 53" by (rule bit_length_le)
    then show ?thesis by (simp add: round_double_def Let_def)
  qed
qed

lemma js_times_exact: "\<bar>a * b\<bar> \<le> 2 ^ 53 \<Longrightarrow> js_times a b = JNum (a * b)"
proof -
  assume a: "\<bar>a * b\<bar> \<le> 2 ^ 53"
  have "(2::int) ^ 53 < 2 ^ 1024" by simp
  with a have "\<not> 2 ^ 1024 \<le> a * b" "\<not> a * b \<le> - (2 ^ 1024)" by linarith+
  with a show ?thesis by (simp add: js_times_def round_double_exact)
qed



lemmas promise_defs =
  calls_of_def bind_p_def resolve_def call_count_def call_find_def call_findOne_def
  call_findOneAndUpdate_def call_findOneAndDelete_def

lemmas collection_defs =
  existsById_def findOne_def findById_def findLastOne_def findSmartPage_def
  findOneAndUpdate_def findByIdAndSet_def findOneAndDelete_def findByIdAndDelete_def

lemma findSmartPage_calls:
  "calls_of (findSmartPage col filter' search sort' sortOrder limit page) w =
     Count (rootFilter filter' search) JUndefined #
     (case fst (c_count col (rootFilter filter' search) JUndefined (store w)) of
        Inl e \<Rightarrow> []
      | Inr n \<Rightarrow> [Find (rootFilter filter' search) (findOptions sort' sortOrder limit page)])"
  by (simp add: promise_defs findSmartPage_def split: prod.splits sum.splits)

text \<open>
  C1, as the code has it. \<open>findSmartPage\<close> sends one filter to \<open>count\<close> and, when the
  count resolves, the same filter to \<open>find\<close>. With a non-empty search string it is
  \<open>{$and: [filter, {$text: {$search: search}}]}\<close>; with \<open>null\<close>, \<open>undefined\<close> or the
  empty string it is \<open>{$and: [filter]}\<close>: the caller's filter as the only conjunct, without
  a text predicate.
\<close>

theorem findSmartPage_effective_filter:
  "\<exists>rest.
     calls_of (findSmartPage col filter' search sort' sortOrder limit page) w =
       Count (rootFilter filter' search) JUndefined # rest \<and>
     (rest = [] \<or> (\<exists>opts. rest = [Find (rootFilter filter' search) opts])) \<and>
     (\<forall>s. search = Val s \<and> s \<noteq> [] \<longrightarrow>
        rootFilter filter' search =
          JObj [(''$and'', JArr [filter', JObj [(''$text'', JObj [(''$search'', JStr s)])]])]) \<and>
     (search = Null \<or> search = Undefined \<or> search = Val [] \<longrightarrow>
        rootFilter filter' search = JObj [(''$and'', JArr [filter'])])"
  by (auto simp: findSmartPage_calls rootFilter_def split: sum.splits)

theorem findSmartPage_effective_filter_witness:
  "calls_of (findSmartPage empty_collection (JObj [(''age'', JNum 7)]) (Val ''hello'') Null Null 10 1)
     (fresh ()) =
     [Count (JObj [(''$and'', JArr [JObj [(''age'', JNum 7)],
                                   JObj [(''$text'', JObj [(''$search'', JStr ''hello'')])]])])
        JUndefined,
      Find (JObj [(''$and'', JArr [JObj [(''age'', JNum 7)],
                                  JObj [(''$text'', JObj [(''$search'', JStr ''hello'')])]])])
        (JObj [(''skip'', JNum 0), (''limit'', JNum 10)])] \<and>
   rootFilter (JObj [(''age'', JNum 7)]) (Val []) = JObj [(''$and'', JArr [JObj [(''age'', JNum 7)]])]"
proof -
  obtain rest where
    c: "calls_of (findSmartPage empty_collection (JObj [(''age'', JNum 7)]) (Val ''hello'') Null Null 10 1)
          (fresh ()) = Count (rootFilter (JObj [(''age'', JNum 7)]) (Val ''hello'')) JUndefined # rest"
    and f: "rootFilter (JObj [(''age'', JNum 7)]) (Val ''hello'') =
          JObj [(''$and'', JArr [JObj [(''age'', JNum 7)],
                                JObj [(''$text'', JObj [(''$search'', JStr ''hello'')])]])]"
    using findSmartPage_effective_filter
      [of empty_collection "JObj [(''age'', JNum 7)]" "Val ''hello''" Null Null 10 1 "fresh ()"]
    by auto
  have r: "rest = [Find (rootFilter (JObj [(''age'', JNum 7)]) (Val ''hello''))
                     (JObj [(''skip'', JNum 0), (''limit'', JNum 10)])]"
    using c by (simp add: promise_defs findSmartPage_def findOptions_def round_double_exact js_times_exact empty_collection_def fresh_def)
  have e: "rootFilter (JObj [(''age'', JNum 7)]) (Val []) = JObj [(''$and'', JArr [JObj [(''age'', JNum 7)]])]"
    using findSmartPage_effective_filter
      [of empty_collection "JObj [(''age'', JNum 7)]" "Val []" Null Null 10 1 "fresh ()"]
    by auto
  from c f r e show ?thesis by simp
qed

text \<open>
  Without a search term the filter that reaches the store is not the caller's filter: it is
  wrapped in \<open>$and\<close>.
\<close>

theorem findSmartPage_wraps_filter:
  "calls_of (findSmartPage empty_collection (JObj [(''age'', JNum 7)]) Null Null Null 10 1) (fresh ()) =
     [Count (JObj [(''$and'', JArr [JObj [(''age'', JNum 7)]])]) JUndefined,
      Find (JObj [(''$and'', JArr [JObj [(''age'', JNum 7)]])])
           (JObj [(''skip'', JNum 0), (''limit'', JNum 10)])] \<and>
   JObj [(''$and'', JArr [JObj [(''age'', JNum 7)]])] \<noteq> JObj [(''age'', JNum 7)]"
  by (simp add: promise_defs findSmartPage_def rootFilter_def findOptions_def round_double_exact js_times_exact
      empty_collection_def fresh_def)







lemma get_prop_limit: "get_prop ''limit'' (findOptions sort' sortOrder limit page) = JNum limit"
  by (simp add: findOptions_def)

lemma findSmartPage_result:
  assumes "findSmartPage col filter' search sort' sortOrder limit page w = (Inr r, w')"
  shows "\<exists>s1 s2.
     c_count col (rootFilter filter' search) JUndefined (store w) = (Inr (total r), s1) \<and>
     c_find col (rootFilter filter' search) (findOptions sort' sortOrder limit page) s1
       = (Inr (items r), s2)"
  using assms
  by (auto simp: promise_defs findSmartPage_def split: prod.splits sum.splits)

text \<open>
  C7, as the code has it. \<open>findSmartPage\<close> passes the page size to the store as
  \<open>limit\<close> and returns what the store answers, whatever the page size: \<open>total\<close> is the
  store's count for the composed filter, and \<open>items\<close> is the store's answer to \<open>find\<close>.
  For a page size above 0, on a store that honours a positive \<open>limit\<close>, \<open>items\<close> is no
  longer than the page size. For a page size of 0, \<open>items\<close> is empty on a store that
  answers a \<open>limit\<close> of 0 with no document.
\<close>

theorem findSmartPage_items_bounded:
  assumes "findSmartPage col filter' search sort' sortOrder limit page w = (Inr r, w')"
  shows "(\<exists>s1 s2.
        c_count col (rootFilter filter' search) JUndefined (store w) = (Inr (total r), s1) \<and>
        c_find col (rootFilter filter' search) (findOptions sort' sortOrder limit page) s1
          = (Inr (items r), s2) \<and>
        get_prop ''limit'' (findOptions sort' sortOrder limit page) = JNum limit) \<and>
     (honours_positive_limit col \<and> 0 < limit \<longrightarrow> int (length (items r)) \<le> limit) \<and>
     (honours_zero_limit col \<and> limit = 0 \<longrightarrow> items r = [])"
proof -
  from findSmartPage_result [OF assms] obtain s1 s2 where
    c: "c_count col (rootFilter filter' search) JUndefined (store w) = (Inr (total r), s1)" and
    f: "c_find col (rootFilter filter' search) (findOptions sort' sortOrder limit page) s1
          = (Inr (items r), s2)"
    by blast
  have p: "int (length (items r)) \<le> limit" if "honours_positive_limit col \<and> 0 < limit"
    using that f get_prop_limit unfolding honours_positive_limit_def by blast
  have z: "items r = []" if "honours_zero_limit col \<and> limit = 0"
    using that f get_prop_limit [of sort' sortOrder limit page]
    unfolding honours_zero_limit_def by blast
  from c f get_prop_limit p z show ?thesis by blast
qed

lemma mem_collection_honours_positive_limit:
  "honours_positive_limit (mem_collection matches zero_is_all)"
  by (auto simp: honours_positive_limit_def mem_collection_def limited_def)

lemma mem_collection_honours_zero_limit: "honours_zero_limit (mem_collection matches False)"
  by (auto simp: honours_zero_limit_def mem_collection_def limited_def)

theorem findSmartPage_items_bounded_witness:
  "findSmartPage (mem_collection match_all True) (JObj []) Null Null Null 2 1
     (fresh [doc_n 1, doc_n 2, doc_n 3]) =
     (Inr \<lparr>total = 3, items = [doc_n 1, doc_n 2]\<rparr>,
      \<lparr>store = [doc_n 1, doc_n 2, doc_n 3],
       issued = [Count (JObj [(''$and'', JArr [JObj []])]) JUndefined,
                 Find (JObj [(''$and'', JArr [JObj []])])
                   (JObj [(''skip'', JNum 0), (''limit'', JNum 2)])]\<rparr>) \<and>
   honours_positive_limit (mem_collection match_all True) \<and> (0::int) < 2 \<and>
   int (length (items \<lparr>total = 3, items = [doc_n 1, doc_n 2]\<rparr>)) \<le> 2 \<and>
   findSmartPage (mem_collection match_all False) (JObj []) Null Null Null 0 1
     (fresh [doc_n 1, doc_n 2]) =
     (Inr \<lparr>total = 2, items = []\<rparr>,
      \<lparr>store = [doc_n 1, doc_n 2],
       issued = [Count (JObj [(''$and'', JArr [JObj []])]) JUndefined,
                 Find (JObj [(''$and'', JArr [JObj []])])
                   (JObj [(''skip'', JNum 0), (''limit'', JNum 0)])]\<rparr>) \<and>
   honours_zero_limit (mem_collection match_all False) \<and>
   c_count (mem_collection match_all False) (rootFilter (JObj []) Null) JUndefined
     (store (fresh [doc_n 1, doc_n 2])) = (Inr 2, [doc_n 1, doc_n 2])"
proof -
  have hp: "honours_positive_limit (mem_collection match_all True)"
    by (rule mem_collection_honours_positive_limit)
  have hz: "honours_zero_limit (mem_collection match_all False)"
    by (rule mem_collection_honours_zero_limit)
  have two: "(0::int) < 2" by simp
  have r2: "findSmartPage (mem_collection match_all True) (JObj []) Null Null Null 2 1
     (fresh [doc_n 1, doc_n 2, doc_n 3]) =
     (Inr \<lparr>total = 3, items = [doc_n 1, doc_n 2]\<rparr>,
      \<lparr>store = [doc_n 1, doc_n 2, doc_n 3],
       issued = [Count (JObj [(''$and'', JArr [JObj []])]) JUndefined,
                 Find (JObj [(''$and'', JArr [JObj []])])
                   (JObj [(''skip'', JNum 0), (''limit'', JNum 2)])]\<rparr>)"
    by (simp add: promise_defs findSmartPage_def rootFilter_def findOptions_def
      round_double_exact js_times_exact
      mem_collection_def mem_matching_def in_order_def skipped_def limited_def
      match_all_def doc_n_def fresh_def)
  have r0: "findSmartPage (mem_collection match_all False) (JObj []) Null Null Null 0 1
     (fresh [doc_n 1, doc_n 2]) =
     (Inr \<lparr>total = 2, items = []\<rparr>,
      \<lparr>store = [doc_n 1, doc_n 2],
       issued = [Count (JObj [(''$and'', JArr [JObj []])]) JUndefined,
                 Find (JObj [(''$and'', JArr [JObj []])])
                   (JObj [(''skip'', JNum 0), (''limit'', JNum 0)])]\<rparr>)"
    by (simp add: promise_defs findSmartPage_def rootFilter_def findOptions_def
      round_double_exact js_times_exact
      mem_collection_def mem_matching_def in_order_def skipped_def limited_def
      match_all_def doc_n_def fresh_def)
  from findSmartPage_items_bounded [OF r2] hp two
  have b: "int (length (items \<lparr>total = 3, items = [doc_n 1, doc_n 2]\<rparr>)) \<le> 2"
    by blast
  from findSmartPage_items_bounded [OF r0]
  obtain s1 where
    c: "c_count (mem_collection match_all False) (rootFilter (JObj []) Null) JUndefined
          (store (fresh [doc_n 1, doc_n 2])) = (Inr (total \<lparr>total = 2, items = []\<rparr>), s1)"
    by blast
  then have "s1 = [doc_n 1, doc_n 2]"
    by (simp add: mem_collection_def fresh_def)
  with c have
    "c_count (mem_collection match_all False) (rootFilter (JObj []) Null) JUndefined
       (store (fresh [doc_n 1, doc_n 2])) = (Inr 2, [doc_n 1, doc_n 2])"
    by simp
  with r2 r0 hp hz two b show ?thesis by blast
qed

text \<open>
  On a store that reads a \<open>limit\<close> of 0 as no limit, a page size of 0 returns every
  matching document.
\<close>

theorem findSmartPage_limit_zero_all:
  "fst (findSmartPage (mem_collection match_all True) (JObj []) Null Null Null 0 1
          (fresh [doc_n 1, doc_n 2])) =
     Inr \<lparr>total = 2, items = [doc_n 1, doc_n 2]\<rparr> \<and>
   \<not> int (length [doc_n 1, doc_n 2]) \<le> 0"
  by (simp add: promise_defs findSmartPage_def rootFilter_def findOptions_def round_double_exact js_times_exact
      mem_collection_def mem_matching_def in_order_def skipped_def limited_def
      match_all_def doc_n_def fresh_def)

section \<open>Lookups\<close>

text \<open>
  C2, as the code has it. Every \<open>*ById\<close> method puts its identifier argument, unchanged,
  under \<open>_id\<close> in the filter of its one call to the store, without \<open>idify\<close>; its result is
  the store's, a falsy document turned into \<open>null\<close> (for \<open>existsById\<close>, whether the count
  is not 0), and it fails only where the store does.
\<close>

theorem byId_delegation:
  "calls_of (findById col i options) w = [FindOne (JObj [(''_id'', i)]) options] \<and>
   fst (findById col i options w) =
     map_sum id or_null (fst (c_findOne col (JObj [(''_id'', i)]) options (store w))) \<and>
   calls_of (existsById col i) w = [Count (JObj [(''_id'', i)]) (JObj [(''limit'', JNum 1)])] \<and>
   fst (existsById col i w) =
     map_sum id (\<lambda>n. n \<noteq> 0)
       (fst (c_count col (JObj [(''_id'', i)]) (JObj [(''limit'', JNum 1)]) (store w))) \<and>
   calls_of (findByIdAndSet col i set_arg options) w =
     [FindOneAndUpdate (JObj [(''_id'', i)]) (JObj [(''$set'', set_arg)]) options] \<and>
   fst (findByIdAndSet col i set_arg options w) =
     map_sum id or_null
       (fst (c_findOneAndUpdate col (JObj [(''_id'', i)]) (JObj [(''$set'', set_arg)]) options (store w))) \<and>
   calls_of (findByIdAndDelete col i options) w = [FindOneAndDelete (JObj [(''_id'', i)]) options] \<and>
   fst (findByIdAndDelete col i options w) =
     map_sum id or_null (fst (c_findOneAndDelete col (JObj [(''_id'', i)]) options (store w)))"
  by (simp add: promise_defs collection_defs split: prod.splits sum.splits)

text \<open>
  A malformed identifier string reaches the store as it is, and nothing is thrown, although
  the strict \<open>idify\<close> throws for it and the lenient one gives \<open>null\<close>.
\<close>

theorem findById_sends_raw_id:
  "fst (findById empty_collection (JStr ''xyz'') JUndefined (fresh ())) = Inr JNull \<and>
   calls_of (findById empty_collection (JStr ''xyz'') JUndefined) (fresh ()) =
     [FindOne (JObj [(''_id'', JStr ''xyz'')]) JUndefined] \<and>
   idify_strict (JStr ''xyz'') = Inl (Error ''Invalid hex value <xyz> passed to idify'') \<and>
   idify (Val ''xyz'') = Inr Null"
  by (simp add: promise_defs findById_def empty_collection_def fresh_def or_null_def isValid_def)

text \<open>
  C9. Each single-document lookup (\<open>findOne\<close>, \<open>findById\<close>, \<open>findLastOne\<close>,
  \<open>findOneAndUpdate\<close>, \<open>findByIdAndSet\<close>, \<open>findOneAndDelete\<close>,
  \<open>findByIdAndDelete\<close>) resolves with \<open>null\<close>, and does not throw, when the driver
  resolves with a falsy value.
\<close>

theorem lookups_absent_null:
  assumes "\<not> truthy v"
  shows
   "(c_findOne col f opts (store w) = (Inr v, s') \<longrightarrow> fst (findOne col f opts w) = Inr JNull) \<and>
    (c_findOne col (JObj [(''_id'', i)]) opts (store w) = (Inr v, s') \<longrightarrow>
       fst (findById col i opts w) = Inr JNull) \<and>
    (c_findOne col f (JObj [(''sort'', JObj [(''_id'', JNum (- 1))]), (''limit'', JNum 1)]) (store w)
       = (Inr v, s') \<longrightarrow> fst (findLastOne col f w) = Inr JNull) \<and>
    (c_findOneAndUpdate col f u opts (store w) = (Inr v, s') \<longrightarrow>
       fst (findOneAndUpdate col f u opts w) = Inr JNull) \<and>
    (c_findOneAndUpdate col (JObj [(''_id'', i)]) (JObj [(''$set'', u)]) opts (store w) = (Inr v, s') \<longrightarrow>
       fst (findByIdAndSet col i u opts w) = Inr JNull) \<and>
    (c_findOneAndDelete col f opts (store w) = (Inr v, s') \<longrightarrow>
       fst (findOneAndDelete col f opts w) = Inr JNull) \<and>
    (c_findOneAndDelete col (JObj [(''_id'', i)]) opts (store w) = (Inr v, s') \<longrightarrow>
       fst (findByIdAndDelete col i opts w) = Inr JNull)"
  using assms by (simp add: promise_defs collection_defs or_null_def)

theorem lookups_absent_null_witness:
  "\<not> truthy JUndefined \<and> \<not> truthy JNull \<and>
   c_findOne empty_collection (JObj []) JUndefined (store (fresh ())) = (Inr JUndefined, ()) \<and>
   fst (findOne empty_collection (JObj []) JUndefined (fresh ())) = Inr JNull \<and>
   fst (findById empty_collection (JStr ''xyz'') JUndefined (fresh ())) = Inr JNull \<and>
   fst (findLastOne empty_collection (JObj []) (fresh ())) = Inr JNull \<and>
   c_findOneAndUpdate empty_collection (JObj []) (JObj []) JUndefined (store (fresh ())) = (Inr JNull, ()) \<and>
   fst (findOneAndUpdate empty_collection (JObj []) (JObj []) JUndefined (fresh ())) = Inr JNull \<and>
   fst (findByIdAndSet empty_collection (JStr ''xyz'') (JObj []) JUndefined (fresh ())) = Inr JNull \<and>
   fst (findOneAndDelete empty_collection (JObj []) JUndefined (fresh ())) = Inr JNull \<and>
   fst (findByIdAndDelete empty_collection (JStr ''xyz'') JUndefined (fresh ())) = Inr JNull"
proof -
  have u: "\<not> truthy JUndefined" and n: "\<not> truthy JNull" by simp_all
  have a: "c_findOne empty_collection f opts (store (fresh ())) = (Inr JUndefined, ())" for f opts
    by (simp add: empty_collection_def)
  have b: "c_findOneAndUpdate empty_collection f x opts (store (fresh ())) = (Inr JNull, ())" for f x opts
    by (simp add: empty_collection_def)
  have c: "c_findOneAndDelete empty_collection f opts (store (fresh ())) = (Inr JNull, ())" for f opts
    by (simp add: empty_collection_def)
  note t = lookups_absent_null
    [where col = empty_collection and w = "fresh ()" and s' = "()" and f = "JObj []"
       and opts = JUndefined and i = "JStr ''xyz''"]
  from t [where v = JUndefined, OF u] t [where v = JNull and u = "JObj []", OF n] u n a b c
  show ?thesis by simp
qed

lemma sorted_key_last:
  "sorted (map k ys) \<Longrightarrow> x \<in> set ys \<Longrightarrow> k x \<le> k (last ys)"
  by (induction ys) (auto split: if_splits)

lemma sort_key_last_greatest:
  assumes "x \<in> set xs"
  shows "k x \<le> k (last (sort_key k xs))"
proof -
  have "sorted (map k (sort_key k xs))" by (rule sorted_sort_key)
  moreover have "x \<in> set (sort_key k xs)" using assms by simp
  ultimately show ?thesis by (rule sorted_key_last)
qed

lemma sort_key_last_member:
  assumes "xs \<noteq> []"
  shows "last (sort_key k xs) \<in> set xs"
proof -
  have "sort_key k xs \<noteq> []" using assms by (metis set_sort set_empty)
  then have "last (sort_key k xs) \<in> set (sort_key k xs)" by (rule last_in_set)
  then show ?thesis by simp
qed

lemma in_order_last:
  "in_order (JObj [(''sort'', JObj [(''_id'', JNum (- 1))]), (''limit'', JNum 1)]) docs =
     rev (sort_key (\<lambda>d. oid_rank (get_prop ''_id'' d)) docs)"
  by (simp add: in_order_def)

lemma mem_matching_document: "d \<in> set (mem_matching matches docs f) \<Longrightarrow> truthy d"
  by (cases d) (auto simp: mem_matching_def)

lemma mem_collection_answers_last:
  "answers_last (mem_collection matches z) (mem_matching matches) oid_rank"
proof -
  have "if mem_matching matches s f = [] then \<not> truthy r
        else truthy r \<and> r \<in> set (mem_matching matches s f) \<and>
             (\<forall>d \<in> set (mem_matching matches s f).
                oid_rank (get_prop ''_id'' d) \<le> oid_rank (get_prop ''_id'' r))"
    if a: "c_findOne (mem_collection matches z) f
             (JObj [(''sort'', JObj [(''_id'', JNum (- 1))]), (''limit'', JNum 1)]) s = (Inr r, s')"
    for f s r s'
  proof (cases "mem_matching matches s f = []")
    case True
    with a show ?thesis by (simp add: mem_collection_def in_order_last)
  next
    case False
    let ?k = "\<lambda>d. oid_rank (get_prop ''_id'' d)"
    let ?m = "mem_matching matches s f"
    from False have ne: "rev (sort_key ?k ?m) \<noteq> []" by (metis set_sort set_empty rev_is_Nil_conv)
    then obtain d ds where e: "rev (sort_key ?k ?m) = d # ds" by (cases "rev (sort_key ?k ?m)") auto
    then have "d = hd (rev (sort_key ?k ?m))" by simp
    then have l: "d = last (sort_key ?k ?m)" by (simp add: hd_rev)
    from a e have r: "r = d" by (simp add: mem_collection_def in_order_last)
    from l r have m: "r \<in> set ?m" using sort_key_last_member [OF False] by simp
    have g: "\<forall>x \<in> set ?m. ?k x \<le> ?k r"
      using sort_key_last_greatest [of _ ?m ?k] l r by simp
    from m have "truthy r" by (rule mem_matching_document)
    with False m g show ?thesis by simp
  qed
  then show ?thesis unfolding answers_last_def by blast
qed

text \<open>
  C10. \<open>findLastOne\<close> asks the store for one document with the options
  \<open>{sort: {_id: -1}, limit: 1}\<close>; on a store that answers such a query as asked, it returns
  a matching document of greatest \<open>_id\<close>, or \<open>null\<close> when no document matches.
\<close>

theorem findLastOne_greatest_id:
  assumes "answers_last col matching rank"
  shows "calls_of (findLastOne col f) w =
       [FindOne f (JObj [(''sort'', JObj [(''_id'', JNum (- 1))]), (''limit'', JNum 1)])] \<and>
     (\<forall>r. fst (findLastOne col f w) = Inr r \<longrightarrow>
        (if matching (store w) f = [] then r = JNull
         else r \<in> set (matching (store w) f) \<and>
              (\<forall>d \<in> set (matching (store w) f).
                 rank (get_prop ''_id'' d) \<le> rank (get_prop ''_id'' r))))"
proof -
  let ?o = "JObj [(''sort'', JObj [(''_id'', JNum (- 1))]), (''limit'', JNum 1)]"
  have c: "calls_of (findLastOne col f) w = [FindOne f ?o]"
    by (simp add: promise_defs findLastOne_def split: prod.splits sum.splits)
  have "if matching (store w) f = [] then r = JNull
        else r \<in> set (matching (store w) f) \<and>
             (\<forall>d \<in> set (matching (store w) f).
                rank (get_prop ''_id'' d) \<le> rank (get_prop ''_id'' r))"
    if a: "fst (findLastOne col f w) = Inr r" for r
  proof -
    obtain x s' where s: "c_findOne col f ?o (store w) = (x, s')" by (cases "c_findOne col f ?o (store w)")
    with a obtain v where v: "x = Inr v" and r: "r = or_null v"
      by (cases x) (simp_all add: promise_defs findLastOne_def)
    from assms s v have
      "if matching (store w) f = [] then \<not> truthy v
       else truthy v \<and> v \<in> set (matching (store w) f) \<and>
            (\<forall>d \<in> set (matching (store w) f).
               rank (get_prop ''_id'' d) \<le> rank (get_prop ''_id'' v))"
      unfolding answers_last_def by blast
    with r show ?thesis by (simp add: or_null_def split: if_splits)
  qed
  with c show ?thesis by blast
qed

theorem findLastOne_greatest_id_witness:
  "answers_last (mem_collection match_all False) (mem_matching match_all) oid_rank \<and>
   findLastOne (mem_collection match_all False) (JObj []) (fresh [doc_n 1, doc_n 3, doc_n 2]) =
     (Inr (doc_n 3),
      \<lparr>store = [doc_n 1, doc_n 3, doc_n 2],
       issued = [FindOne (JObj []) (JObj [(''sort'', JObj [(''_id'', JNum (- 1))]), (''limit'', JNum 1)])]\<rparr>) \<and>
   mem_matching match_all [doc_n 1, doc_n 3, doc_n 2] (JObj []) = [doc_n 1, doc_n 3, doc_n 2] \<and>
   oid_rank (get_prop ''_id'' (doc_n 2)) \<le> oid_rank (get_prop ''_id'' (doc_n 3)) \<and>
   fst (findLastOne (mem_collection match_all False) (JObj []) (fresh [])) = Inr JNull"
proof -
  have h: "answers_last (mem_collection match_all False) (mem_matching match_all) oid_rank"
    by (rule mem_collection_answers_last)
  have r: "findLastOne (mem_collection match_all False) (JObj []) (fresh [doc_n 1, doc_n 3, doc_n 2]) =
     (Inr (doc_n 3),
      \<lparr>store = [doc_n 1, doc_n 3, doc_n 2],
       issued = [FindOne (JObj []) (JObj [(''sort'', JObj [(''_id'', JNum (- 1))]), (''limit'', JNum 1)])]\<rparr>)"
    by (simp add: promise_defs findLastOne_def or_null_def mem_collection_def mem_matching_def
        in_order_def match_all_def doc_n_def oid_rank_def fresh_def)
  have m: "mem_matching match_all [doc_n 1, doc_n 3, doc_n 2] (JObj []) = [doc_n 1, doc_n 3, doc_n 2]"
    by (simp add: mem_matching_def match_all_def doc_n_def)
  have e: "fst (findLastOne (mem_collection match_all False) (JObj []) (fresh [])) = Inr JNull"
    by (simp add: promise_defs findLastOne_def or_null_def mem_collection_def mem_matching_def
        in_order_def fresh_def)
  from findLastOne_greatest_id [OF h, of "JObj []" "fresh [doc_n 1, doc_n 3, doc_n 2]"] r m
  have "oid_rank (get_prop ''_id'' (doc_n 2)) \<le> oid_rank (get_prop ''_id'' (doc_n 3))"
    by (simp add: fresh_def)
  with h r m e show ?thesis by blast
qed

end
